theory Spec2Isabelle
  imports Main
begin

section \<open>The deterministic finite automaton of the finite-state-machine notebook\<close>

text \<open>
  The class \<^verbatim>\<open>DeterministicFiniteAutomaton\<close> of
  \<^verbatim>\<open>examples/gallery/computer_science/finite_state_machine.ipynb\<close>:
  \<^verbatim>\<open>
  def __init__(self, states, alphabet, transitions, start_state, accepting_states):
      self.states = states
      self.alphabet = alphabet
      self.transitions = transitions
      self.start_state = start_state
      self.accepting_states = accepting_states

  def accepts(self, string):
      current_state = self.start_state
      for symbol in string:
          if symbol not in self.alphabet:
              raise ValueError('String contains invalid symbol: '.format(symbol))
          current_state = self.transitions[current_state][symbol]
      if current_state in self.accepting_states:
          return True
      return False
  \<close>
  Symbols are Python strings (iterating over a \<^verbatim>\<open>str\<close> yields its one-character
  strings); states are any type with equality. The two sets are HOL sets, the nested
  dictionary is a map from states to maps from symbols to states.
\<close>

subsection \<open>Data\<close>

record 'q DeterministicFiniteAutomaton =
  states :: "'q set"
  alphabet :: "string set"
  transitions :: "'q \<rightharpoonup> (string \<rightharpoonup> 'q)"
  start_state :: 'q
  accepting_states :: "'q set"

text \<open>
  The exceptions a call can raise. \<open>ValueError\<close> carries its message; it is the error
  the specification calls InvalidSymbolError. \<open>KeyError\<close> carries the key that a
  dictionary did not have, a state for the outer dictionary and a symbol for a row; it
  is the error the specification calls UndefinedTransitionError. \<open>IndexError\<close> is what
  \<^verbatim>\<open>str.format\<close> raises when a replacement field has no argument.
\<close>

datatype 'q key = State 'q | Symbol string

datatype 'q error = ValueError string | KeyError "'q key" | IndexError

text \<open>
  The local variables of a call of \<^verbatim>\<open>accepts\<close>. \<open>count\<close> is a ghost variable, not
  in the source: the number of times the body of the loop has been entered.
\<close>

record 'q frame =
  self :: "'q DeterministicFiniteAutomaton"
  current_state :: 'q
  count :: nat

text \<open>
  What a caller observes of a call: the value returned or the exception raised, the
  object afterwards, and (ghost) the number of loop iterations that were begun.
\<close>

record 'q call =
  result :: "'q error + bool"
  self_after :: "'q DeterministicFiniteAutomaton"
  iterations :: nat

subsection \<open>Library operations the method uses\<close>

text \<open>
  \<^verbatim>\<open>template.format(*args)\<close> for templates made of literal text and replacement
  fields \<^verbatim>\<open>{}\<close> (no escapes, no numbered or named fields, no format specifications):
  each field takes the next positional argument, and arguments left over are dropped.
  \<open>None\<close> where a field has no argument left, where Python raises IndexError.
\<close>

fun str_format :: "string \<Rightarrow> string list \<Rightarrow> string option" where
  "str_format [] args = Some []"
| "str_format [c] args = Some [c]"
| "str_format (c # d # t) args =
     (if c = CHR ''{'' \<and> d = CHR ''}'' then
        (case args of
           [] \<Rightarrow> None
         | a # as \<Rightarrow> map_option ((@) a) (str_format t as))
      else map_option ((#) c) (str_format (d # t) args))"

text \<open>\<^verbatim>\<open>d[k]\<close> on a dictionary: the value, or KeyError with the missing key (\<open>Inl\<close>).\<close>

definition getitem :: "('k \<rightharpoonup> 'v) \<Rightarrow> 'k \<Rightarrow> 'k + 'v" where
  "getitem d k = (case d k of None \<Rightarrow> Inl k | Some v \<Rightarrow> Inr v)"

text \<open>Iterating over a Python \<^verbatim>\<open>str\<close>: its characters, each as a string of length one.\<close>

definition iter_str :: "string \<Rightarrow> string list" where
  "iter_str s = map (\<lambda>c. [c]) s"

subsection \<open>The constructor and the method\<close>

definition init ::
  "'q set \<Rightarrow> string set \<Rightarrow> ('q \<rightharpoonup> (string \<rightharpoonup> 'q)) \<Rightarrow> 'q \<Rightarrow> 'q set
     \<Rightarrow> 'q DeterministicFiniteAutomaton" where
  "init sts alph tbl q0 accs =
     \<lparr>states = sts, alphabet = alph, transitions = tbl, start_state = q0,
      accepting_states = accs\<rparr>"

text \<open>
  One pass through the body of the loop. The first component of the value is the
  exception raised, if any; the second is the frame afterwards.
\<close>

definition loop_body :: "'q frame \<Rightarrow> string \<Rightarrow> 'q error option \<times> 'q frame" where
  "loop_body fr symbol =
     (if symbol \<notin> alphabet (self fr) then
        (case str_format ''String contains invalid symbol: '' [symbol] of
           None \<Rightarrow> (Some IndexError, fr)
         | Some msg \<Rightarrow> (Some (ValueError msg), fr))
      else
        (case getitem (transitions (self fr)) (current_state fr) of
           Inl k \<Rightarrow> (Some (KeyError (State k)), fr)
         | Inr row \<Rightarrow>
             (case getitem row symbol of
                Inl k \<Rightarrow> (Some (KeyError (Symbol k)), fr)
              | Inr nxt \<Rightarrow> (None, fr\<lparr>current_state := nxt\<rparr>))))"

text \<open>The \<^verbatim>\<open>for\<close> loop: it stops at the first exception.\<close>

fun for_loop :: "'q frame \<Rightarrow> string list \<Rightarrow> 'q error option \<times> 'q frame" where
  "for_loop fr [] = (None, fr)"
| "for_loop fr (symbol # rest) =
     (case loop_body (fr\<lparr>count := Suc (count fr)\<rparr>) symbol of
        (Some e, fr') \<Rightarrow> (Some e, fr')
      | (None, fr') \<Rightarrow> for_loop fr' rest)"

text \<open>The frame on entry: \<^verbatim>\<open>current_state = self.start_state\<close>.\<close>

definition entry :: "'q DeterministicFiniteAutomaton \<Rightarrow> 'q frame" where
  "entry m = \<lparr>self = m, current_state = start_state m, count = 0\<rparr>"

definition accepts :: "'q DeterministicFiniteAutomaton \<Rightarrow> string list \<Rightarrow> 'q call" where
  "accepts m string =
     (case for_loop (entry m) string of
        (Some e, fr) \<Rightarrow>
          \<lparr>result = Inl e, self_after = self fr, iterations = count fr\<rparr>
      | (None, fr) \<Rightarrow>
          \<lparr>result = Inr (if current_state fr \<in> accepting_states (self fr) then True else False),
           self_after = self fr, iterations = count fr\<rparr>)"

subsection \<open>The automaton of the notebook\<close>

text \<open>The instance \<^verbatim>\<open>m1\<close> that the notebook creates.\<close>

definition m1 :: "string DeterministicFiniteAutomaton" where
  "m1 = init {''q0'', ''q1'', ''q2'', ''q3''} {''0'', ''1''}
     [''q0'' \<mapsto> [''0'' \<mapsto> ''q0'', ''1'' \<mapsto> ''q1''],
      ''q1'' \<mapsto> [''0'' \<mapsto> ''q0'', ''1'' \<mapsto> ''q2''],
      ''q2'' \<mapsto> [''0'' \<mapsto> ''q0'', ''1'' \<mapsto> ''q3''],
      ''q3'' \<mapsto> [''0'' \<mapsto> ''q0'', ''1'' \<mapsto> ''q3'']]
     ''q0'' {''q3''}"

text \<open>
  An automaton with a partially specified table: the only row, that of \<^verbatim>\<open>q0\<close>,
  has an entry for \<^verbatim>\<open>0\<close> and none for \<^verbatim>\<open>1\<close>.
\<close>

definition m_gap :: "string DeterministicFiniteAutomaton" where
  "m_gap = init {''q0''} {''0'', ''1''} [''q0'' \<mapsto> [''0'' \<mapsto> ''q0'']] ''q0'' {''q0''}"

text \<open>
  An automaton in which a state other than the start state has no row: \<^verbatim>\<open>q0\<close> goes
  to \<^verbatim>\<open>q1\<close> on \<^verbatim>\<open>0\<close>, and the table has no key \<^verbatim>\<open>q1\<close>.
\<close>

definition m_norow :: "string DeterministicFiniteAutomaton" where
  "m_norow = init {''q0'', ''q1''} {''0'', ''1''} [''q0'' \<mapsto> [''0'' \<mapsto> ''q1'']] ''q0'' {''q0''}"

subsection \<open>Notions used to state the properties\<close>

text \<open>
  The state the loop has reached when it has consumed \<open>xs\<close> without raising;
  \<open>None\<close> when it raises on the way.
\<close>

definition state_after :: "'q DeterministicFiniteAutomaton \<Rightarrow> string list \<Rightarrow> 'q option" where
  "state_after m xs =
     (case for_loop (entry m) xs of
        (None, fr) \<Rightarrow> Some (current_state fr)
      | (Some e, fr) \<Rightarrow> None)"

text \<open>
  The table has no entry for the pair \<open>(q, s)\<close>: either no row for \<open>q\<close>, or a row
  without \<open>s\<close>.
\<close>

definition no_entry :: "'q DeterministicFiniteAutomaton \<Rightarrow> 'q \<Rightarrow> string \<Rightarrow> bool" where
  "no_entry m q s = (case transitions m q of None \<Rightarrow> True | Some row \<Rightarrow> row s = None)"

text \<open>
  The transition function of the specification, read off the table alone: the entry for
  the pair \<open>(q, s)\<close>, if the table has one.
\<close>

definition delta :: "'q DeterministicFiniteAutomaton \<Rightarrow> 'q \<Rightarrow> string \<Rightarrow> 'q option" where
  "delta m q s = (case transitions m q of None \<Rightarrow> None | Some row \<Rightarrow> row s)"

text \<open>
  The state that the table leads to from \<open>q\<close> along a sequence of symbols of the
  alphabet; \<open>None\<close> when a symbol is outside the alphabet or an entry is missing on the
  way. It is defined from the alphabet and the table, not from the loop of \<open>accepts\<close>.
\<close>

fun walk :: "'q DeterministicFiniteAutomaton \<Rightarrow> 'q \<Rightarrow> string list \<Rightarrow> 'q option" where
  "walk m q [] = Some q"
| "walk m q (s # rest) =
     (if s \<in> alphabet m then
        (case delta m q s of None \<Rightarrow> None | Some q' \<Rightarrow> walk m q' rest)
      else None)"

section \<open>Basic facts\<close>

lemma str_format_no_field: "CHR ''{'' \<notin> set t \<Longrightarrow> str_format t args = Some t"
  by (induction t args rule: str_format.induct) auto

lemma invalid_symbol_message:
  "str_format ''String contains invalid symbol: '' args = Some ''String contains invalid symbol: ''"
  by (rule str_format_no_field) simp

subsection \<open>The loop\<close>

lemma loop_body_invalid:
  "symbol \<notin> alphabet (self fr) \<Longrightarrow>
     loop_body fr symbol = (Some (ValueError ''String contains invalid symbol: ''), fr)"
  by (simp add: loop_body_def invalid_symbol_message)

lemma loop_body_self: "self (snd (loop_body fr symbol)) = self fr"
  by (simp add: loop_body_def invalid_symbol_message getitem_def split: option.splits)

lemma loop_body_count: "count (snd (loop_body fr symbol)) = count fr"
  by (simp add: loop_body_def invalid_symbol_message getitem_def split: option.splits)

lemma for_loop_self: "self (snd (for_loop fr xs)) = self fr"
proof (induction xs arbitrary: fr)
  case Nil
  show ?case by simp
next
  case (Cons symbol rest)
  obtain r fr' where b: "loop_body (fr\<lparr>count := Suc (count fr)\<rparr>) symbol = (r, fr')"
    by (cases "loop_body (fr\<lparr>count := Suc (count fr)\<rparr>) symbol")
  have "self fr' = self fr"
    using loop_body_self [of "fr\<lparr>count := Suc (count fr)\<rparr>" symbol] b by simp
  then show ?case using b Cons.IH [of fr'] by (cases r) simp_all
qed

lemma for_loop_append:
  "for_loop fr (xs @ ys) =
     (case for_loop fr xs of (Some e, fr') \<Rightarrow> (Some e, fr') | (None, fr') \<Rightarrow> for_loop fr' ys)"
  by (induction xs arbitrary: fr) (auto split: prod.splits option.splits)

lemma for_loop_count_ok:
  "for_loop fr xs = (None, fr') \<Longrightarrow> count fr' = count fr + length xs"
proof (induction xs arbitrary: fr)
  case Nil
  then show ?case by simp
next
  case (Cons symbol rest)
  obtain r fr1 where b: "loop_body (fr\<lparr>count := Suc (count fr)\<rparr>) symbol = (r, fr1)"
    by (cases "loop_body (fr\<lparr>count := Suc (count fr)\<rparr>) symbol")
  have c: "count fr1 = Suc (count fr)"
    using loop_body_count [of "fr\<lparr>count := Suc (count fr)\<rparr>" symbol] b by simp
  from Cons.prems b have r: "r = None" and "for_loop fr1 rest = (None, fr')"
    by (cases r; simp)+
  then show ?case using Cons.IH [of fr1] c by simp
qed

lemma for_loop_count_raised:
  "for_loop fr xs = (Some e, fr') \<Longrightarrow> count fr < count fr' \<and> count fr' \<le> count fr + length xs"
proof (induction xs arbitrary: fr)
  case Nil
  then show ?case by simp
next
  case (Cons symbol rest)
  obtain r fr1 where b: "loop_body (fr\<lparr>count := Suc (count fr)\<rparr>) symbol = (r, fr1)"
    by (cases "loop_body (fr\<lparr>count := Suc (count fr)\<rparr>) symbol")
  have c: "count fr1 = Suc (count fr)"
    using loop_body_count [of "fr\<lparr>count := Suc (count fr)\<rparr>" symbol] b by simp
  show ?case
  proof (cases r)
    case None
    with Cons.prems b have "for_loop fr1 rest = (Some e, fr')" by simp
    from Cons.IH [OF this] c show ?thesis by simp
  next
    case (Some e')
    with Cons.prems b have "fr' = fr1" by simp
    with c show ?thesis by simp
  qed
qed

lemma for_loop_valid:
  "for_loop fr xs = (None, fr') \<Longrightarrow> set xs \<subseteq> alphabet (self fr)"
proof (induction xs arbitrary: fr)
  case Nil
  then show ?case by simp
next
  case (Cons symbol rest)
  obtain r fr1 where b: "loop_body (fr\<lparr>count := Suc (count fr)\<rparr>) symbol = (r, fr1)"
    by (cases "loop_body (fr\<lparr>count := Suc (count fr)\<rparr>) symbol")
  have s: "self fr1 = self fr"
    using loop_body_self [of "fr\<lparr>count := Suc (count fr)\<rparr>" symbol] b by simp
  from Cons.prems b have r: "r = None" and l: "for_loop fr1 rest = (None, fr')"
    by (cases r; simp)+
  have "symbol \<in> alphabet (self fr)"
  proof (rule ccontr)
    assume "symbol \<notin> alphabet (self fr)"
    then have "fst (loop_body (fr\<lparr>count := Suc (count fr)\<rparr>) symbol) \<noteq> None"
      by (simp add: loop_body_invalid)
    with b r show False by simp
  qed
  then show ?case using Cons.IH [OF l] s by simp
qed

lemma state_after_frame:
  assumes "state_after m xs = Some q"
  shows "for_loop (entry m) xs = (None, \<lparr>self = m, current_state = q, count = length xs\<rparr>)"
proof -
  obtain r fr where l: "for_loop (entry m) xs = (r, fr)"
    by (cases "for_loop (entry m) xs")
  with assms have r: "r = None" and q: "current_state fr = q"
    by (cases r; simp add: state_after_def)+
  have "self fr = m"
    using for_loop_self [of "entry m" xs] l by (simp add: entry_def)
  moreover have "count fr = length xs"
    using for_loop_count_ok [of "entry m" xs fr] l r by (simp add: entry_def)
  ultimately have "fr = \<lparr>self = m, current_state = q, count = length xs\<rparr>"
    using q by (cases fr) simp
  with l r show ?thesis by simp
qed

lemma state_after_valid: "state_after m xs = Some q \<Longrightarrow> set xs \<subseteq> alphabet m"
  using for_loop_valid [of "entry m" xs] state_after_frame [of m xs q]
  by (simp add: entry_def)

lemma accepts_returns:
  "state_after m xs = Some q \<Longrightarrow>
     accepts m xs = \<lparr>result = Inr (q \<in> accepting_states m), self_after = m, iterations = length xs\<rparr>"
  by (simp add: accepts_def state_after_frame)

lemma returns_state_after:
  "result (accepts m xs) = Inr b \<Longrightarrow> \<exists>q. state_after m xs = Some q"
  by (auto simp: accepts_def state_after_def split: prod.splits option.splits)

lemma accepts_raises_at:
  assumes "state_after m xs = Some q"
    and "loop_body \<lparr>self = m, current_state = q, count = Suc (length xs)\<rparr> s = (Some e, fr)"
  shows "accepts m (xs @ s # ys) = \<lparr>result = Inl e, self_after = m, iterations = Suc (length xs)\<rparr>"
proof -
  have "fr = \<lparr>self = m, current_state = q, count = Suc (length xs)\<rparr>"
    using assms(2) loop_body_self [of "\<lparr>self = m, current_state = q, count = Suc (length xs)\<rparr>" s]
      loop_body_count [of "\<lparr>self = m, current_state = q, count = Suc (length xs)\<rparr>" s]
    by (cases fr) (auto simp: loop_body_def getitem_def invalid_symbol_message split: if_splits option.splits)
  then show ?thesis
    using assms by (simp add: accepts_def for_loop_append state_after_frame)
qed

lemma body_no_entry:
  assumes "s \<in> alphabet m" and "no_entry m q s"
  shows "loop_body \<lparr>self = m, current_state = q, count = n\<rparr> s =
     (Some (KeyError (if transitions m q = None then State q else Symbol s)),
      \<lparr>self = m, current_state = q, count = n\<rparr>)"
  using assms by (auto simp: loop_body_def getitem_def no_entry_def split: option.splits)

lemma accepts_leaves_self: "self_after (accepts m xs) = m"
proof -
  obtain r fr where l: "for_loop (entry m) xs = (r, fr)"
    by (cases "for_loop (entry m) xs")
  have "self fr = m"
    using for_loop_self [of "entry m" xs] l by (simp add: entry_def)
  with l show ?thesis by (cases r) (simp_all add: accepts_def)
qed

lemma loop_body_states:
  "loop_body (fr\<lparr>self := (self fr)\<lparr>states := S\<rparr>\<rparr>) s =
     (fst (loop_body fr s),
      (snd (loop_body fr s))\<lparr>self := (self (snd (loop_body fr s)))\<lparr>states := S\<rparr>\<rparr>)"
  by (simp add: loop_body_def getitem_def invalid_symbol_message split: option.splits)

lemma for_loop_states:
  "for_loop (fr\<lparr>self := (self fr)\<lparr>states := S\<rparr>\<rparr>) xs =
     (fst (for_loop fr xs),
      (snd (for_loop fr xs))\<lparr>self := (self (snd (for_loop fr xs)))\<lparr>states := S\<rparr>\<rparr>)"
proof (induction xs arbitrary: fr)
  case Nil
  show ?case by simp
next
  case (Cons symbol rest)
  let ?fr = "fr\<lparr>count := Suc (count fr)\<rparr>"
  obtain r fr1 where b: "loop_body ?fr symbol = (r, fr1)"
    by (cases "loop_body ?fr symbol")
  have e: "fr\<lparr>self := (self fr)\<lparr>states := S\<rparr>, count := Suc (count fr)\<rparr>
      = ?fr\<lparr>self := (self ?fr)\<lparr>states := S\<rparr>\<rparr>"
    by (cases fr) simp
  have lb: "loop_body (?fr\<lparr>self := (self ?fr)\<lparr>states := S\<rparr>\<rparr>) symbol
      = (r, fr1\<lparr>self := (self fr1)\<lparr>states := S\<rparr>\<rparr>)"
    using loop_body_states [where fr = ?fr and S = S and s = symbol] b by simp
  have "loop_body (fr\<lparr>self := (self fr)\<lparr>states := S\<rparr>, count := Suc (count fr)\<rparr>) symbol
      = (r, fr1\<lparr>self := (self fr1)\<lparr>states := S\<rparr>\<rparr>)"
    unfolding e by (rule lb)
  then show ?case using b Cons.IH [of fr1] by (cases r) simp_all
qed

lemma accepts_states:
  "accepts (m\<lparr>states := S\<rparr>) xs = (accepts m xs)\<lparr>self_after := (self_after (accepts m xs))\<lparr>states := S\<rparr>\<rparr>"
proof -
  have "entry (m\<lparr>states := S\<rparr>) = (entry m)\<lparr>self := (self (entry m))\<lparr>states := S\<rparr>\<rparr>"
    by (simp add: entry_def)
  then show ?thesis
    using for_loop_states [where fr = "entry m" and S = S and xs = xs]
    by (simp add: accepts_def split: prod.splits option.splits)
qed

lemma for_loop_take:
  "for_loop fr xs = (r, fr') \<Longrightarrow> for_loop fr (take (count fr' - count fr) xs) = (r, fr')"
proof (induction xs arbitrary: fr)
  case Nil
  then show ?case by simp
next
  case (Cons symbol rest)
  let ?fr = "fr\<lparr>count := Suc (count fr)\<rparr>"
  obtain r1 fr1 where b: "loop_body ?fr symbol = (r1, fr1)"
    by (cases "loop_body ?fr symbol")
  have c: "count fr1 = Suc (count fr)"
    using loop_body_count [of ?fr symbol] b by simp
  show ?case
  proof (cases r1)
    case None
    with Cons.prems b have l: "for_loop fr1 rest = (r, fr')" by simp
    have "count fr1 \<le> count fr'"
      using l for_loop_count_ok [of fr1 rest fr'] for_loop_count_raised [of fr1 rest _ fr']
      by (cases r) auto
    then have "count fr' - count fr = Suc (count fr' - count fr1)" using c by simp
    then show ?thesis using Cons.IH [OF l] b None by simp
  next
    case (Some e)
    with Cons.prems b have "r = Some e" "fr' = fr1" by simp_all
    then show ?thesis using b c Some by simp
  qed
qed

subsection \<open>The loop follows the table\<close>

lemma no_entry_delta: "no_entry m q s \<longleftrightarrow> delta m q s = None"
  by (simp add: no_entry_def delta_def split: option.splits)

lemma loop_body_delta:
  "s \<in> alphabet (self fr) \<Longrightarrow> delta (self fr) (current_state fr) s = Some q' \<Longrightarrow>
     loop_body fr s = (None, fr\<lparr>current_state := q'\<rparr>)"
  by (auto simp: loop_body_def getitem_def delta_def split: option.splits)

lemma loop_body_no_delta:
  "s \<in> alphabet (self fr) \<Longrightarrow> delta (self fr) (current_state fr) s = None \<Longrightarrow>
     \<exists>k. loop_body fr s = (Some (KeyError k), fr)"
  by (auto simp: loop_body_def getitem_def delta_def split: option.splits)

lemma for_loop_walk:
  "(case for_loop fr xs of (None, fr') \<Rightarrow> Some (current_state fr') | (Some e, fr') \<Rightarrow> None)
     = walk (self fr) (current_state fr) xs"
proof (induction xs arbitrary: fr)
  case Nil
  show ?case by simp
next
  case (Cons s rest)
  let ?fr = "fr\<lparr>count := Suc (count fr)\<rparr>"
  show ?case
  proof (cases "s \<in> alphabet (self fr)")
    case False
    then have "loop_body ?fr s = (Some (ValueError ''String contains invalid symbol: ''), ?fr)"
      by (simp add: loop_body_invalid)
    with False show ?thesis by simp
  next
    case True
    show ?thesis
    proof (cases "delta (self fr) (current_state fr) s")
      case None
      then obtain k where "loop_body ?fr s = (Some (KeyError k), ?fr)"
        using loop_body_no_delta [of s ?fr] True by auto
      with True None show ?thesis by simp
    next
      case (Some q')
      then have b: "loop_body ?fr s = (None, ?fr\<lparr>current_state := q'\<rparr>)"
        using loop_body_delta [of s ?fr q'] True by simp
      show ?thesis
        using Cons.IH [of "?fr\<lparr>current_state := q'\<rparr>"] b True Some by simp
    qed
  qed
qed

lemma state_after_walk: "state_after m xs = walk m (start_state m) xs"
  using for_loop_walk [of "entry m" xs] by (simp add: state_after_def entry_def)

subsection \<open>The message of the ValueError\<close>

text \<open>
  The template of the message has no replacement field, so the symbol handed to
  \<^verbatim>\<open>format\<close> does not appear in the message; with a field it would.
\<close>

lemma m1_invalid_symbol_message:
  "result (accepts m1 (iter_str ''12'')) = Inl (ValueError ''String contains invalid symbol: '')"
  by (simp add: accepts_def entry_def m1_def init_def iter_str_def loop_body_def getitem_def)

lemma str_format_with_field:
  "str_format ''invalid symbol: {}'' [''2''] = Some ''invalid symbol: 2''"
  by simp

section \<open>The properties\<close>

text \<open>
  C1. On the automaton \<open>m1\<close> of the notebook (states q0 to q3, alphabet 0 and 1, start
  state q0, accepting state q3, and the table given there), \<open>accepts\<close> returns True on
  "111" and on "010111", and False on "101", on "101110" and on the empty string.
\<close>

theorem accepts_m1_scenario:
  "result (accepts m1 (iter_str ''111'')) = Inr True
   \<and> result (accepts m1 (iter_str ''010111'')) = Inr True
   \<and> result (accepts m1 (iter_str ''101'')) = Inr False
   \<and> result (accepts m1 (iter_str ''101110'')) = Inr False
   \<and> result (accepts m1 (iter_str '''')) = Inr False"
  by (simp add: accepts_def entry_def m1_def init_def iter_str_def loop_body_def getitem_def)

text \<open>
  C2. On the empty input \<open>accepts\<close> enters the loop body zero times and returns
  whether the start state is an accepting state. This holds for every automaton, hence
  for those whose table is total.
\<close>

theorem accepts_empty:
  "result (accepts m []) = Inr (start_state m \<in> accepting_states m)
   \<and> iterations (accepts m []) = 0"
  by (simp add: accepts_def entry_def)

text \<open>
  C3, as stated, fails: an input with a symbol outside the alphabet does not always end
  in a ValueError. On \<open>m_gap\<close> the input "12" contains the symbol 2, which is not in the
  alphabet, but the run stops before it, at the symbol 1, with a KeyError.
\<close>

theorem invalid_symbol_after_gap:
  "''2'' \<in> set (iter_str ''12'') \<and> ''2'' \<notin> alphabet m_gap
   \<and> result (accepts m_gap (iter_str ''12'')) = Inl (KeyError (Symbol ''1''))"
  by (simp add: accepts_def entry_def m_gap_def init_def iter_str_def loop_body_def getitem_def)

text \<open>
  C3, amended. If the input contains a symbol outside the alphabet, and \<open>accepts\<close>
  returns a boolean on the longest prefix of the input whose symbols are all in the
  alphabet (so no transition is missing before the first symbol outside the alphabet),
  then \<open>accepts\<close> raises a ValueError instead of returning a boolean. The input "12" on
  \<open>m1\<close> is such a case.
\<close>

theorem accepts_invalid_symbol:
  assumes "s \<in> set xs" and "s \<notin> alphabet m"
    and "result (accepts m (takeWhile (\<lambda>x. x \<in> alphabet m) xs)) = Inr b"
  shows "\<exists>msg. result (accepts m xs) = Inl (ValueError msg)"
proof -
  let ?P = "\<lambda>x. x \<in> alphabet m"
  from assms(1,2) have "dropWhile ?P xs \<noteq> []" by auto
  then obtain t ys where d: "dropWhile ?P xs = t # ys" by (cases "dropWhile ?P xs") auto
  have t: "t \<notin> alphabet m" using hd_dropWhile [of ?P xs] d by simp
  from assms(3) obtain q where q: "state_after m (takeWhile ?P xs) = Some q"
    using returns_state_after by blast
  have "xs = takeWhile ?P xs @ t # ys" using d takeWhile_dropWhile_id [of ?P xs] by simp
  moreover have "result (accepts m (takeWhile ?P xs @ t # ys))
      = Inl (ValueError ''String contains invalid symbol: '')"
    using accepts_raises_at [OF q, of t] t by (simp add: loop_body_invalid)
  ultimately show ?thesis by metis
qed

theorem accepts_invalid_symbol_witness:
  "''2'' \<in> set (iter_str ''12'') \<and> ''2'' \<notin> alphabet m1
   \<and> result (accepts m1 (takeWhile (\<lambda>x. x \<in> alphabet m1) (iter_str ''12''))) = Inr False
   \<and> (\<exists>msg. result (accepts m1 (iter_str ''12'')) = Inl (ValueError msg))"
proof -
  have a: "''2'' \<in> set (iter_str ''12'')" by (simp add: iter_str_def)
  have b: "''2'' \<notin> alphabet m1" by (simp add: m1_def init_def)
  have c: "result (accepts m1 (takeWhile (\<lambda>x. x \<in> alphabet m1) (iter_str ''12''))) = Inr False"
    by (simp add: accepts_def entry_def m1_def init_def iter_str_def loop_body_def getitem_def)
  from accepts_invalid_symbol [OF a b c] a b c show ?thesis by blast
qed

text \<open>
  C4. If the table, followed from the start state along the symbols of \<open>xs\<close> (all of
  them in the alphabet), leads to the state \<open>q\<close>, the symbol \<open>s\<close> is in the alphabet,
  and the table has no entry for \<open>(q, s)\<close>, then on every input that starts with \<open>xs\<close>
  followed by \<open>s\<close> the call raises a KeyError (not a ValueError, and no boolean is
  returned): with the state as key when the state has no row, with the symbol as key
  when the row lacks the symbol.
\<close>

theorem accepts_undefined_transition:
  assumes "walk m (start_state m) xs = Some q" and "s \<in> alphabet m" and "no_entry m q s"
  shows "result (accepts m (xs @ s # ys))
     = Inl (KeyError (if transitions m q = None then State q else Symbol s))"
proof -
  from assms(1) have r: "state_after m xs = Some q" by (simp add: state_after_walk)
  show ?thesis
    using accepts_raises_at [OF r body_no_entry [OF assms(2,3)]] by simp
qed

theorem accepts_undefined_transition_witness:
  "walk m_norow (start_state m_norow) [''0''] = Some ''q1'' \<and> ''q1'' \<noteq> start_state m_norow
   \<and> ''0'' \<in> alphabet m_norow \<and> no_entry m_norow ''q1'' ''0''
   \<and> result (accepts m_norow ([''0''] @ ''0'' # [])) = Inl (KeyError (State ''q1''))"
proof -
  have a: "walk m_norow (start_state m_norow) [''0''] = Some ''q1''"
    by (simp add: m_norow_def init_def delta_def)
  have b: "''0'' \<in> alphabet m_norow" by (simp add: m_norow_def init_def)
  have c: "no_entry m_norow ''q1'' ''0''" by (simp add: no_entry_def m_norow_def init_def)
  have d: "transitions m_norow ''q1'' = None" by (simp add: m_norow_def init_def)
  have e: "''q1'' \<noteq> start_state m_norow" by (simp add: m_norow_def init_def)
  from accepts_undefined_transition [OF a b c, of "[]"] a b c d e show ?thesis by simp
qed

text \<open>
  C5. Membership in the alphabet is tested before the table is read: when the symbols
  of \<open>xs\<close> have been consumed without an exception and the next symbol \<open>s\<close> is outside
  the alphabet, the call raises a ValueError, whatever the table holds for the current
  state and \<open>s\<close> (also nothing), and wherever \<open>s\<close> stands in the input.
\<close>

theorem alphabet_checked_before_table:
  assumes "state_after m xs = Some q" and "s \<notin> alphabet m"
  shows "\<exists>msg. result (accepts m (xs @ s # ys)) = Inl (ValueError msg)"
  using accepts_raises_at [OF assms(1), of s] assms(2) by (simp add: loop_body_invalid)

theorem alphabet_checked_before_table_witness:
  "state_after m_gap [''0''] = Some ''q0'' \<and> ''2'' \<notin> alphabet m_gap
   \<and> no_entry m_gap ''q0'' ''2''
   \<and> (\<exists>msg. result (accepts m_gap ([''0''] @ ''2'' # [''0''])) = Inl (ValueError msg))"
proof -
  have a: "state_after m_gap [''0''] = Some ''q0''"
    by (simp add: state_after_def entry_def m_gap_def init_def loop_body_def getitem_def)
  have b: "''2'' \<notin> alphabet m_gap" by (simp add: m_gap_def init_def)
  have c: "no_entry m_gap ''q0'' ''2''" by (simp add: no_entry_def m_gap_def init_def)
  from alphabet_checked_before_table [OF a b, of "[''0'']"] a b c show ?thesis by blast
qed

text \<open>
  C6. A call depends on the automaton and the input only: a call made on the object
  that an earlier call (on any input \<open>ys\<close>, in particular on the same input) has left
  behind gives the same result, and does as many iterations, as a call on the automaton
  as it was constructed. Nothing of a call survives it.
\<close>

theorem accepts_repeatable:
  "accepts (self_after (accepts m ys)) xs = accepts m xs"
  by (simp add: accepts_leaves_self)

text \<open>
  C7. The constructor stores its five arguments as they are. A call of \<open>accepts\<close>,
  whether it returns or raises, leaves the object as it was; the loop, from any frame,
  never changes \<open>self\<close>; and the variable \<open>current_state\<close> of a call starts as the
  start state.
\<close>

theorem accepts_frame:
  "states (init sts alph tbl q0 accs) = sts
   \<and> alphabet (init sts alph tbl q0 accs) = alph
   \<and> transitions (init sts alph tbl q0 accs) = tbl
   \<and> start_state (init sts alph tbl q0 accs) = q0
   \<and> accepting_states (init sts alph tbl q0 accs) = accs
   \<and> self_after (accepts m xs) = m
   \<and> current_state (entry m) = start_state m
   \<and> self (snd (for_loop fr xs)) = self fr"
  by (simp add: init_def accepts_leaves_self entry_def for_loop_self)

text \<open>
  C8. The loop is a recursion on the input list, so every call ends. It begins at most
  one iteration per symbol: exactly one per symbol when a boolean is returned, and at
  least one when an exception is raised; the symbols after the last iteration play no
  part in the call.
\<close>

theorem accepts_iterations:
  "iterations (accepts m xs) \<le> length xs
   \<and> (case result (accepts m xs) of
        Inr b \<Rightarrow> iterations (accepts m xs) = length xs
      | Inl e \<Rightarrow> 0 < iterations (accepts m xs))
   \<and> accepts m (take (iterations (accepts m xs)) xs) = accepts m xs"
proof -
  obtain r fr where l: "for_loop (entry m) xs = (r, fr)"
    by (cases "for_loop (entry m) xs")
  have t: "for_loop (entry m) (take (count fr) xs) = (r, fr)"
    using for_loop_take [OF l] by (simp add: entry_def)
  show ?thesis
  proof (cases r)
    case None
    with l have "count fr = length xs"
      using for_loop_count_ok [of "entry m" xs fr] by (simp add: entry_def)
    with l None show ?thesis by (simp add: accepts_def)
  next
    case (Some e)
    with l have "0 < count fr \<and> count fr \<le> length xs"
      using for_loop_count_raised [of "entry m" xs e fr] by (simp add: entry_def)
    with l t Some show ?thesis by (simp add: accepts_def)
  qed
qed

theorem accepts_iterations_witness:
  "iterations (accepts m_gap (iter_str ''0012'')) = 3
   \<and> result (accepts m_gap (iter_str ''0012'')) = Inl (KeyError (Symbol ''1''))
   \<and> accepts m_gap (take 3 (iter_str ''0012'')) = accepts m_gap (iter_str ''0012'')"
proof -
  have a: "accepts m_gap (iter_str ''0012'')
      = \<lparr>result = Inl (KeyError (Symbol ''1'')), self_after = m_gap, iterations = 3\<rparr>"
    by (simp add: accepts_def entry_def m_gap_def init_def iter_str_def loop_body_def getitem_def)
  from accepts_iterations [of m_gap "iter_str ''0012''"] a show ?thesis by simp
qed

text \<open>
  C9. \<open>accepts\<close> never reads the set of states: two automata with the same alphabet,
  table, start state and accepting states give the same result (the same boolean or the
  same exception) after the same number of iterations on every input, whatever their
  sets of states are.
\<close>

theorem accepts_ignores_states:
  assumes "alphabet m' = alphabet m" and "transitions m' = transitions m"
    and "start_state m' = start_state m" and "accepting_states m' = accepting_states m"
  shows "result (accepts m' xs) = result (accepts m xs)
     \<and> iterations (accepts m' xs) = iterations (accepts m xs)"
proof -
  from assms have "m' = m\<lparr>states := states m'\<rparr>" by simp
  then have "accepts m' xs = accepts (m\<lparr>states := states m'\<rparr>) xs" by simp
  then show ?thesis by (simp add: accepts_states)
qed

theorem accepts_ignores_states_witness:
  "alphabet (m1\<lparr>states := {}\<rparr>) = alphabet m1
   \<and> transitions (m1\<lparr>states := {}\<rparr>) = transitions m1
   \<and> start_state (m1\<lparr>states := {}\<rparr>) = start_state m1
   \<and> accepting_states (m1\<lparr>states := {}\<rparr>) = accepting_states m1
   \<and> states (m1\<lparr>states := {}\<rparr>) \<noteq> states m1
   \<and> result (accepts (m1\<lparr>states := {}\<rparr>) (iter_str ''111'')) = Inr True
   \<and> result (accepts m1 (iter_str ''111'')) = Inr True"
proof -
  have r: "result (accepts m1 (iter_str ''111'')) = Inr True"
    by (simp add: accepts_def entry_def m1_def init_def iter_str_def loop_body_def getitem_def)
  have s: "states (m1\<lparr>states := {}\<rparr>) \<noteq> states m1" by (simp add: m1_def init_def)
  from accepts_ignores_states [of "m1\<lparr>states := {}\<rparr>" m1 "iter_str ''111''"] r s
  show ?thesis by simp
qed

text \<open>
  C10. Errors come in the order in which the input is consumed. When the table,
  followed from the start state along the symbols of \<open>xs\<close>, leads to the state \<open>q\<close>:
  if the next symbol \<open>s\<close> is in the alphabet and the table has no entry for \<open>(q, s)\<close>,
  the call raises a KeyError in iteration \<open>length xs + 1\<close>, whatever follows \<open>s\<close>, also
  symbols outside the alphabet, which are never taken from the input; and if \<open>s\<close> is
  outside the alphabet, the call raises a ValueError in that iteration, whatever
  follows \<open>s\<close>, also symbols for which the table has no entry.
\<close>

theorem errors_in_consumption_order:
  assumes "walk m (start_state m) xs = Some q"
  shows "(s \<in> alphabet m \<and> no_entry m q s \<longrightarrow>
            (\<forall>ys. (\<exists>k. result (accepts m (xs @ s # ys)) = Inl (KeyError k))
                \<and> iterations (accepts m (xs @ s # ys)) = Suc (length xs)))
     \<and> (s \<notin> alphabet m \<longrightarrow>
            (\<forall>ys. (\<exists>msg. result (accepts m (xs @ s # ys)) = Inl (ValueError msg))
                \<and> iterations (accepts m (xs @ s # ys)) = Suc (length xs)))"
proof (intro conjI impI allI)
  from assms have r: "state_after m xs = Some q" by (simp add: state_after_walk)
  {
    fix ys
    assume "s \<in> alphabet m \<and> no_entry m q s"
    then have b: "loop_body \<lparr>self = m, current_state = q, count = Suc (length xs)\<rparr> s =
       (Some (KeyError (if transitions m q = None then State q else Symbol s)),
        \<lparr>self = m, current_state = q, count = Suc (length xs)\<rparr>)"
      by (simp add: body_no_entry)
    show "\<exists>k. result (accepts m (xs @ s # ys)) = Inl (KeyError k)"
      using accepts_raises_at [OF r b] by simp
    show "iterations (accepts m (xs @ s # ys)) = Suc (length xs)"
      using accepts_raises_at [OF r b] by simp
  }
  {
    fix ys
    assume "s \<notin> alphabet m"
    then have b: "loop_body \<lparr>self = m, current_state = q, count = Suc (length xs)\<rparr> s =
       (Some (ValueError ''String contains invalid symbol: ''),
        \<lparr>self = m, current_state = q, count = Suc (length xs)\<rparr>)"
      by (simp add: loop_body_invalid)
    show "\<exists>msg. result (accepts m (xs @ s # ys)) = Inl (ValueError msg)"
      using accepts_raises_at [OF r b] by simp
    show "iterations (accepts m (xs @ s # ys)) = Suc (length xs)"
      using accepts_raises_at [OF r b] by simp
  }
qed

theorem errors_in_consumption_order_witness:
  "walk m_norow (start_state m_norow) [''0''] = Some ''q1'' \<and> ''q1'' \<noteq> start_state m_norow
   \<and> ''0'' \<in> alphabet m_norow \<and> no_entry m_norow ''q1'' ''0'' \<and> ''2'' \<notin> alphabet m_norow
   \<and> (\<exists>k. result (accepts m_norow ([''0''] @ ''0'' # [''2''])) = Inl (KeyError k))
   \<and> iterations (accepts m_norow ([''0''] @ ''0'' # [''2''])) = 2
   \<and> (\<exists>msg. result (accepts m_norow ([''0''] @ ''2'' # [''0''])) = Inl (ValueError msg))
   \<and> iterations (accepts m_norow ([''0''] @ ''2'' # [''0''])) = 2"
proof -
  have a: "walk m_norow (start_state m_norow) [''0''] = Some ''q1''"
    by (simp add: m_norow_def init_def delta_def)
  have b: "''0'' \<in> alphabet m_norow \<and> no_entry m_norow ''q1'' ''0''"
    by (simp add: no_entry_def m_norow_def init_def)
  have c: "''2'' \<notin> alphabet m_norow" by (simp add: m_norow_def init_def)
  have n: "''q1'' \<noteq> start_state m_norow" by (simp add: m_norow_def init_def)
  from errors_in_consumption_order [OF a, of "''0''"] b
  have d: "(\<exists>k. result (accepts m_norow ([''0''] @ ''0'' # [''2''])) = Inl (KeyError k))
     \<and> iterations (accepts m_norow ([''0''] @ ''0'' # [''2''])) = Suc (length [''0''])"
    by blast
  from errors_in_consumption_order [OF a, of "''2''"] c
  have e: "(\<exists>msg. result (accepts m_norow ([''0''] @ ''2'' # [''0''])) = Inl (ValueError msg))
     \<and> iterations (accepts m_norow ([''0''] @ ''2'' # [''0''])) = Suc (length [''0''])"
    by blast
  from a b c d e n show ?thesis by simp
qed

end
